theory Spec2Isabelle
  imports Main "HOL-Library.Sublist"
begin

section \<open>Data model\<close>

text \<open>
  The plugin of \<^verbatim>\<open>src/index.ts\<close> works on the cell widgets of a notebook. A widget is an
  object: the handlers compare widgets by identity (\<^verbatim>\<open>child === cell\<close>) and write to them
  in place, so a widget is a reference (a natural number) into a store of cells.
\<close>

datatype cell_kind = Code | Markdown | Raw

datatype chapyter_cellType = Generated | Original

text \<open>The type \<^verbatim>\<open>ChapyterCellMetadata\<close>: an optional linked id and a cell type.\<close>

record ChapyterCellMetadata =
  linkedCellId :: "string option"
  cellType :: chapyter_cellType

text \<open>
  What the plugin reads and writes of a cell: \<^verbatim>\<open>model.id\<close>, \<^verbatim>\<open>model.type\<close>, the source
  text, \<^verbatim>\<open>model.executionCount\<close> (a number or null), the metadata keys
  \<^verbatim>\<open>ChapyterCell\<close> and \<^verbatim>\<open>deletable\<close> (\<open>None\<close> is \<^verbatim>\<open>undefined\<close>), the
  \<^verbatim>\<open>inputHidden\<close> flag and the CSS classes of the widget.
\<close>

record cell =
  model_id :: string
  model_type :: cell_kind
  source :: string
  executionCount :: "int option"
  ChapyterCell :: "ChapyterCellMetadata option"
  deletable :: "bool option"
  inputHidden :: bool
  classList :: "string list"

type_synonym cell_ref = nat
type_synonym store = "cell_ref \<Rightarrow> cell"

text \<open>The requests the plugin makes to \<^verbatim>\<open>NotebookActions\<close> of the host.\<close>

datatype command = SelectBelow | SelectAbove | Run

text \<open>
  The notebook widget: the ordered widgets, the cursor, the model's list of deleted cell
  ids, the multi-selection, and the host requests made so far, in order.
\<close>

record notebook =
  widgets :: "cell_ref list"
  activeCellIndex :: int
  deletedCells :: "string list"
  selection :: "cell_ref list"
  issued :: "command list"

text \<open>
  The state the two handlers see: the cells, and \<^verbatim>\<open>tracker.currentWidget\<close>, which may be
  null.
\<close>

record world =
  cells :: store
  currentWidget :: "notebook option"

text \<open>
  Reading a property of \<^verbatim>\<open>undefined\<close> throws. A handler that throws returns the error;
  the writes it made before the throw are not kept in the result.
\<close>

datatype error = TypeError

definition CHAPYTER_CHAT_CELL :: string where
  "CHAPYTER_CHAT_CELL = ''jp-chapyter-chat''"

definition CHAPYTER_CHAT_CELL_EXECUTING :: string where
  "CHAPYTER_CHAT_CELL_EXECUTING = ''jp-chapyter-chat-executing''"

definition CHAPYTER_ASSISTANCE_CELL :: string where
  "CHAPYTER_ASSISTANCE_CELL = ''jp-chapyter-assistance''"

section \<open>Strings\<close>

definition startsWith :: "string \<Rightarrow> string \<Rightarrow> bool" where
  "startsWith s p = prefix p s"

fun str_includes :: "string \<Rightarrow> string \<Rightarrow> bool" where
  "str_includes [] p = (p = [])"
| "str_includes (c # cs) p = (prefix p (c # cs) \<or> str_includes cs p)"

text \<open>\<^verbatim>\<open>s.split('\n')[0]\<close>: the text before the first line feed.\<close>

definition split_first :: "string \<Rightarrow> string" where
  "split_first s = takeWhile (\<lambda>c. c \<noteq> CHR 0x0A) s"

definition digit :: "nat \<Rightarrow> char" where
  "digit d = ''0123456789'' ! d"

fun show_nat :: "nat \<Rightarrow> string" where
  "show_nat n = (if n < 10 then [digit n] else show_nat (n div 10) @ [digit (n mod 10)])"

definition show_int :: "int \<Rightarrow> string" where
  "show_int i = (if i < 0 then CHR ''-'' # show_nat (nat (- i)) else show_nat (nat i))"

text \<open>
  The parameter type \<^verbatim>\<open>string | number | null\<close> of \<^verbatim>\<open>findCellByTemplateString\<close>. An
  execution count is an integer, which a template literal prints in decimal.
\<close>

datatype executionId = Str string | Num int | Null

fun truthy :: "executionId \<Rightarrow> bool" where
  "truthy Null = False"
| "truthy (Num n) = (n \<noteq> 0)"
| "truthy (Str s) = (s \<noteq> [])"

fun interpolate :: "executionId \<Rightarrow> string" where
  "interpolate Null = ''null''"
| "interpolate (Num n) = show_int n"
| "interpolate (Str s) = s"

definition searchTemplate :: "executionId \<Rightarrow> string" where
  "searchTemplate e = ''# Assistant Code for Cell ['' @ interpolate e @ '']:''"

section \<open>Cell locator\<close>

definition isCellNotGenerated :: "cell \<Rightarrow> bool" where
  "isCellNotGenerated c =
     (if model_type c = Code then
        (case ChapyterCell c of
           None \<Rightarrow> True
         | Some metadata \<Rightarrow> \<not> (cellType metadata = Generated))
      else True)"

text \<open>The scan of \<^verbatim>\<open>findCellById\<close> over the widgets that are left.\<close>

fun findCellById_from :: "store \<Rightarrow> cell_ref list \<Rightarrow> string \<Rightarrow> cell_ref option" where
  "findCellById_from h [] i = None"
| "findCellById_from h (w # ws) i =
     (if model_id (h w) = i then Some w else findCellById_from h ws i)"

definition findCellById :: "store \<Rightarrow> notebook \<Rightarrow> string \<Rightarrow> cell_ref option" where
  "findCellById h nb i = findCellById_from h (widgets nb) i"

fun findCellByTemplateString_from ::
  "store \<Rightarrow> cell_ref list \<Rightarrow> string \<Rightarrow> cell_ref option" where
  "findCellByTemplateString_from h [] t = None"
| "findCellByTemplateString_from h (w # ws) t =
     (if model_type (h w) = Code \<and> startsWith (split_first (source (h w))) t then Some w
      else findCellByTemplateString_from h ws t)"

definition findCellByTemplateString ::
  "store \<Rightarrow> notebook \<Rightarrow> executionId \<Rightarrow> cell_ref option" where
  "findCellByTemplateString h nb e =
     (if truthy e then findCellByTemplateString_from h (widgets nb) (searchTemplate e)
      else None)"

text \<open>The scan of \<^verbatim>\<open>findCellIndexById\<close> from position \<open>k\<close> on; \<open>-1\<close> when nothing is found.\<close>

fun findCellIndexById_from :: "store \<Rightarrow> cell_ref list \<Rightarrow> int \<Rightarrow> string \<Rightarrow> int" where
  "findCellIndexById_from h [] k i = -1"
| "findCellIndexById_from h (w # ws) k i =
     (if model_id (h w) = i then k else findCellIndexById_from h ws (k + 1) i)"

definition findCellIndexById :: "store \<Rightarrow> notebook \<Rightarrow> string \<Rightarrow> int" where
  "findCellIndexById h nb i = findCellIndexById_from h (widgets nb) 0 i"

section \<open>Magic detector\<close>

definition isCellChapyterMagicCell :: "cell \<Rightarrow> bool \<Rightarrow> bool" where
  "isCellChapyterMagicCell c strict =
     (let codeCellText = source c in
      if startsWith codeCellText ''%chat'' \<or> startsWith codeCellText ''%%chat'' then
        (if \<not> startsWith codeCellText ''%%chatonly'' \<or> \<not> strict then True else False)
      else False)"

definition isCellChapyterMagicCellSafeMode :: "cell \<Rightarrow> bool" where
  "isCellChapyterMagicCellSafeMode c =
     (let firstLine = split_first (source c) in
      str_includes firstLine ''-s'' \<or> str_includes firstLine ''--safe'')"

section \<open>Host primitives\<close>

text \<open>
  Modelled from the spec: the setter of \<^verbatim>\<open>activeCellIndex\<close>, \<^verbatim>\<open>deselectAll\<close>,
  \<^verbatim>\<open>sharedModel.deleteCell\<close> and \<^verbatim>\<open>NotebookActions.selectBelow\<close>, \<^verbatim>\<open>selectAbove\<close>
  and \<^verbatim>\<open>run\<close> belong to the host and are not under \<^verbatim>\<open>src/\<close>. The spec gives the host
  relative cursor primitives (step up, step down), a request to execute, and a delete
  primitive on the cell list. The comment in \<^verbatim>\<open>deleteCell\<close> says that an assigned
  \<^verbatim>\<open>activeCellIndex\<close> is clamped to the available cells; with no cell left there is
  no active cell, and the index is \<open>-1\<close>. Each request to \<^verbatim>\<open>NotebookActions\<close> is
  recorded in \<open>issued\<close>.
\<close>

definition set_activeCellIndex :: "notebook \<Rightarrow> int \<Rightarrow> notebook" where
  "set_activeCellIndex nb v =
     nb\<lparr>activeCellIndex :=
          (if widgets nb = [] then -1 else max 0 (min v (int (length (widgets nb)) - 1)))\<rparr>"

definition deselectAll :: "notebook \<Rightarrow> notebook" where
  "deselectAll nb = nb\<lparr>selection := []\<rparr>"

definition sharedModel_deleteCell :: "nat \<Rightarrow> cell_ref list \<Rightarrow> cell_ref list" where
  "sharedModel_deleteCell index ws = take index ws @ drop (Suc index) ws"

text \<open>\<^verbatim>\<open>notebook.widgets[i]\<close>: \<^verbatim>\<open>undefined\<close> out of range.\<close>

definition widget_at :: "notebook \<Rightarrow> int \<Rightarrow> cell_ref option" where
  "widget_at nb i =
     (if 0 \<le> i \<and> i < int (length (widgets nb)) then Some (widgets nb ! nat i) else None)"

text \<open>
  Modelled from the spec: a step of the host passes over the cells whose input region is
  hidden (the spec has such a cell passed over without a navigation command of its own).
  The step down goes to the first cell below the cursor that shows its input, and
  nowhere when the cursor is on the last cell that shows its input; the step up goes
  to the first cell above the cursor that shows its input, and to the first cell of
  the notebook when there is none. Both do nothing without an active cell, the step up
  does nothing at position 0, and both clear the selection when they move. With the
  cursor below the last cell that shows its input the step down moves one position.
  Where no cell at all shows its input the host's search for the last such cell has
  nothing to find; the model leaves the cursor in place there.
\<close>

definition shows_input :: "store \<Rightarrow> notebook \<Rightarrow> nat \<Rightarrow> bool" where
  "shows_input h nb k = (\<not> inputHidden (h (widgets nb ! k)))"

text \<open>The last position whose cell shows its input, if there is one.\<close>

definition lastShown :: "store \<Rightarrow> notebook \<Rightarrow> nat option" where
  "lastShown h nb =
     (case filter (shows_input h nb) (rev [0..<length (widgets nb)]) of
        [] \<Rightarrow> None
      | k # ks \<Rightarrow> Some k)"

text \<open>The first position from \<open>k\<close> downwards whose cell shows its input.\<close>

definition firstShownBelow :: "store \<Rightarrow> notebook \<Rightarrow> nat \<Rightarrow> nat option" where
  "firstShownBelow h nb k =
     (case filter (shows_input h nb) [k..<length (widgets nb)] of
        [] \<Rightarrow> None
      | j # js \<Rightarrow> Some j)"

text \<open>The first position above \<open>k\<close>, going upwards, whose cell shows its input; \<open>-1\<close> when
  the search runs off the top.\<close>

definition firstShownAbove :: "store \<Rightarrow> notebook \<Rightarrow> nat \<Rightarrow> int" where
  "firstShownAbove h nb k =
     (case filter (shows_input h nb) (rev [0..<k]) of
        [] \<Rightarrow> -1
      | j # js \<Rightarrow> int j)"

definition selectBelow :: "store \<Rightarrow> notebook \<Rightarrow> notebook" where
  "selectBelow h nb =
     (let nb1 = nb\<lparr>issued := issued nb @ [SelectBelow]\<rparr>
      in case widget_at nb (activeCellIndex nb) of
           None \<Rightarrow> nb1
         | Some activeCell \<Rightarrow>
             (case lastShown h nb of
                None \<Rightarrow> nb1
              | Some maxCellIndex \<Rightarrow>
                  (if activeCellIndex nb = int maxCellIndex then nb1
                   else
                     (let possibleNextCellIndex = activeCellIndex nb + 1
                      in if possibleNextCellIndex < int maxCellIndex then
                           (case firstShownBelow h nb (nat possibleNextCellIndex) of
                              None \<Rightarrow> nb1
                            | Some j \<Rightarrow> deselectAll (set_activeCellIndex nb1 (int j)))
                         else deselectAll (set_activeCellIndex nb1 possibleNextCellIndex)))))"

definition selectAbove :: "store \<Rightarrow> notebook \<Rightarrow> notebook" where
  "selectAbove h nb =
     (let nb1 = nb\<lparr>issued := issued nb @ [SelectAbove]\<rparr>
      in case widget_at nb (activeCellIndex nb) of
           None \<Rightarrow> nb1
         | Some activeCell \<Rightarrow>
             (if activeCellIndex nb = 0 then nb1
              else deselectAll
                     (set_activeCellIndex nb1
                        (firstShownAbove h nb (nat (activeCellIndex nb))))))"

definition run :: "notebook \<Rightarrow> notebook" where
  "run nb = nb\<lparr>issued := issued nb @ [Run]\<rparr>"

definition setMetadata_ChapyterCell ::
  "store \<Rightarrow> cell_ref \<Rightarrow> ChapyterCellMetadata \<Rightarrow> store" where
  "setMetadata_ChapyterCell h r m = h(r := (h r)\<lparr>ChapyterCell := Some m\<rparr>)"

definition addClass :: "store \<Rightarrow> cell_ref \<Rightarrow> string \<Rightarrow> store" where
  "addClass h r c = h(r := (h r)\<lparr>classList := List.insert c (classList (h r))\<rparr>)"

definition removeClass :: "store \<Rightarrow> cell_ref \<Rightarrow> string \<Rightarrow> store" where
  "removeClass h r c = h(r := (h r)\<lparr>classList := removeAll c (classList (h r))\<rparr>)"

definition toggleClass :: "store \<Rightarrow> cell_ref \<Rightarrow> string \<Rightarrow> store" where
  "toggleClass h r c =
     (if c \<in> set (classList (h r)) then removeClass h r c else addClass h r c)"

section \<open>Selection navigator\<close>

text \<open>
  The two loops of \<^verbatim>\<open>selectCellById\<close>. The loop variable \<open>i\<close> runs from the cursor's
  position at the call to the target; the widget read is the one at \<open>i\<close>.
\<close>

function selectBelow_loop :: "store \<Rightarrow> int \<Rightarrow> int \<Rightarrow> notebook \<Rightarrow> error + notebook" where
  "selectBelow_loop h i targetCellIndex nb =
     (if i < targetCellIndex then
        (case widget_at nb i of
           None \<Rightarrow> Inl TypeError
         | Some w \<Rightarrow>
             selectBelow_loop h (i + 1) targetCellIndex
               (if \<not> inputHidden (h w) then selectBelow h nb else nb))
      else Inr nb)"
  by pat_completeness auto
termination
  by (relation "measure (\<lambda>(h, i, t, nb). nat (t - i))") auto

function selectAbove_loop :: "store \<Rightarrow> int \<Rightarrow> int \<Rightarrow> notebook \<Rightarrow> error + notebook" where
  "selectAbove_loop h i targetCellIndex nb =
     (if i > targetCellIndex then
        (case widget_at nb i of
           None \<Rightarrow> Inl TypeError
         | Some w \<Rightarrow>
             selectAbove_loop h (i - 1) targetCellIndex
               (if \<not> inputHidden (h w) then selectAbove h nb else nb))
      else Inr nb)"
  by pat_completeness auto
termination
  by (relation "measure (\<lambda>(h, i, t, nb). nat (i - t))") auto

declare selectBelow_loop.simps [simp del]
declare selectAbove_loop.simps [simp del]

definition selectCellById :: "store \<Rightarrow> notebook \<Rightarrow> string \<Rightarrow> error + notebook" where
  "selectCellById h nb i =
     (let activeCellIndex = activeCellIndex nb;
          targetCellIndex = findCellIndexById h nb i
      in if targetCellIndex \<noteq> -1 then
           (if activeCellIndex \<noteq> targetCellIndex then
              (if activeCellIndex < targetCellIndex then
                 selectBelow_loop h activeCellIndex targetCellIndex nb
               else selectAbove_loop h activeCellIndex targetCellIndex nb)
            else Inr nb)
         else Inr nb)"

section \<open>Cell deleter\<close>

text \<open>The positions that the \<^verbatim>\<open>forEach\<close> of \<^verbatim>\<open>deleteCell\<close> pushes, in ascending order.\<close>

definition toDelete_of :: "store \<Rightarrow> notebook \<Rightarrow> cell_ref \<Rightarrow> nat list" where
  "toDelete_of h nb c =
     filter (\<lambda>index. widgets nb ! index = c \<and> deletable (h (widgets nb ! index)) \<noteq> Some False)
       [0..<length (widgets nb)]"

text \<open>
  \<^verbatim>\<open>toDelete.reverse()\<close> reverses the array in place, so \<^verbatim>\<open>toDelete[0]\<close> is read from
  the reversed array.
\<close>

definition deleteCell :: "store \<Rightarrow> notebook \<Rightarrow> cell_ref \<Rightarrow> notebook" where
  "deleteCell h nb c =
     (let toDelete = toDelete_of h nb c;
          nb1 = nb\<lparr>deletedCells :=
                     deletedCells nb @ map (\<lambda>index. model_id (h (widgets nb ! index))) toDelete\<rparr>;
          nb2 = (if length toDelete > 0 then
                   (let reversed = rev toDelete;
                        nb' = nb1\<lparr>widgets := fold sharedModel_deleteCell reversed (widgets nb1)\<rparr>
                    in set_activeCellIndex nb'
                         (int (hd reversed) - int (length reversed) + 1))
                 else nb1)
      in deselectAll nb2)"

section \<open>Orchestrator\<close>

definition executionId_of :: "int option \<Rightarrow> executionId" where
  "executionId_of n = (case n of None \<Rightarrow> Null | Some k \<Rightarrow> Num k)"

text \<open>The body of \<^verbatim>\<open>if (assistanceCell)\<close> in the handler of \<^verbatim>\<open>executed\<close>.\<close>

definition link_assistanceCell ::
  "store \<Rightarrow> notebook \<Rightarrow> cell_ref \<Rightarrow> cell_ref \<Rightarrow> bool \<Rightarrow> error + store \<times> notebook" where
  "link_assistanceCell h nb chatCell assistanceCell inSafeMode =
     (let h1 = setMetadata_ChapyterCell h assistanceCell
                 \<lparr>linkedCellId = Some (model_id (h chatCell)), cellType = Generated\<rparr>
      in case (if \<not> inSafeMode then
                 (case selectCellById h1 nb (model_id (h1 assistanceCell)) of
                    Inl e \<Rightarrow> Inl e
                  | Inr nb1 \<Rightarrow>
                      Inr (h1(assistanceCell := (h1 assistanceCell)\<lparr>inputHidden := True\<rparr>),
                           run nb1))
               else Inr (h1, nb)) of
           Inl e \<Rightarrow> Inl e
         | Inr (h2, nb2) \<Rightarrow>
             (case selectCellById h2 nb2 (model_id (h2 assistanceCell)) of
                Inl e \<Rightarrow> Inl e
              | Inr nb3 \<Rightarrow>
                  (let nb4 = (if \<not> inSafeMode then selectBelow h2 nb3 else nb3);
                       h3 = setMetadata_ChapyterCell h2 chatCell
                              \<lparr>linkedCellId = Some (model_id (h2 assistanceCell)),
                               cellType = Original\<rparr>;
                       h4 = addClass h3 chatCell CHAPYTER_CHAT_CELL;
                       h5 = removeClass h4 chatCell CHAPYTER_CHAT_CELL_EXECUTING;
                       h6 = addClass h5 assistanceCell CHAPYTER_ASSISTANCE_CELL
                   in Inr (h6, nb4))))"

text \<open>The first step of the handler of \<^verbatim>\<open>executed\<close>: a cell without the metadata
  is tagged as an original cell.\<close>

definition tag_original :: "store \<Rightarrow> cell_ref \<Rightarrow> store" where
  "tag_original h chatCell =
     (if ChapyterCell (h chatCell) = None then
        setMetadata_ChapyterCell h chatCell \<lparr>linkedCellId = None, cellType = Original\<rparr>
      else h)"

text \<open>The handler of \<^verbatim>\<open>NotebookActions.executed\<close>, with \<^verbatim>\<open>args.success\<close> and \<^verbatim>\<open>args.cell\<close>.\<close>

definition onExecuted :: "world \<Rightarrow> bool \<Rightarrow> cell_ref \<Rightarrow> error + world" where
  "onExecuted w success chatCell =
     (if success then
        (if isCellChapyterMagicCell (cells w chatCell) True \<and>
            isCellNotGenerated (cells w chatCell) then
           (let h1 = tag_original (cells w) chatCell;
                inSafeMode = isCellChapyterMagicCellSafeMode (h1 chatCell)
            in case currentWidget w of
                 None \<Rightarrow> Inr (w\<lparr>cells := h1\<rparr>)
               | Some nb \<Rightarrow>
                   (case findCellByTemplateString h1 nb
                           (executionId_of (executionCount (h1 chatCell))) of
                      None \<Rightarrow> Inr (w\<lparr>cells := h1\<rparr>)
                    | Some assistanceCell \<Rightarrow>
                        (case link_assistanceCell h1 nb chatCell assistanceCell inSafeMode of
                           Inl e \<Rightarrow> Inl e
                         | Inr (h', nb') \<Rightarrow> Inr (w\<lparr>cells := h', currentWidget := Some nb'\<rparr>))))
         else Inr w)
      else Inr w)"

text \<open>The handler of \<^verbatim>\<open>NotebookActions.executionScheduled\<close>, with \<^verbatim>\<open>args.cell\<close>.\<close>

definition onExecutionScheduled :: "world \<Rightarrow> cell_ref \<Rightarrow> error + world" where
  "onExecutionScheduled w chatCell =
     (if isCellChapyterMagicCell (cells w chatCell) False \<and>
         isCellNotGenerated (cells w chatCell) then
        (let h1 = toggleClass (cells w) chatCell CHAPYTER_CHAT_CELL_EXECUTING;
             linkedCellId = (case ChapyterCell (h1 chatCell) of
                               None \<Rightarrow> None
                             | Some m \<Rightarrow> linkedCellId m)
         in case currentWidget w of
              None \<Rightarrow> Inr (w\<lparr>cells := h1\<rparr>)
            | Some nb \<Rightarrow>
                (case linkedCellId of
                   None \<Rightarrow> Inr (w\<lparr>cells := h1\<rparr>)
                 | Some l \<Rightarrow>
                     (if l \<noteq> [] then
                        (case findCellById h1 nb l of
                           None \<Rightarrow> Inr (w\<lparr>cells := h1\<rparr>)
                         | Some linkedCell \<Rightarrow>
                             (case selectCellById h1 (deleteCell h1 nb linkedCell)
                                     (model_id (h1 chatCell)) of
                                Inl e \<Rightarrow> Inl e
                              | Inr nb' \<Rightarrow> Inr (w\<lparr>cells := h1, currentWidget := Some nb'\<rparr>)))
                      else Inr (w\<lparr>cells := h1\<rparr>))))
      else Inr w)"

section \<open>Notions used in the statements\<close>

text \<open>The positions of a widget in a widget list, in ascending order.\<close>

definition positions :: "cell_ref list \<Rightarrow> cell_ref \<Rightarrow> nat list" where
  "positions ws c = filter (\<lambda>index. ws ! index = c) [0..<length ws]"

text \<open>
  The host keeps the cursor on a cell of the notebook whenever the notebook has cells.
\<close>

definition cursor_ok :: "notebook \<Rightarrow> bool" where
  "cursor_ok nb =
     (widgets nb = [] \<or>
      (0 \<le> activeCellIndex nb \<and> activeCellIndex nb < int (length (widgets nb))))"

text \<open>The widgets of the notebook that are tagged as generated for the trigger id \<open>t\<close>.\<close>

definition generatedLinkedTo :: "store \<Rightarrow> notebook \<Rightarrow> string \<Rightarrow> cell_ref list" where
  "generatedLinkedTo h nb t =
     filter (\<lambda>r. case ChapyterCell (h r) of
                   None \<Rightarrow> False
                 | Some m \<Rightarrow> cellType m = Generated \<and> linkedCellId m = Some t)
       (remdups (widgets nb))"

text \<open>
  Modelled from the spec: what the kernel and the backend do between the two events is
  not under \<^verbatim>\<open>src/\<close>. The host gives the executed cell its execution count, and the
  backend puts the generated cell below the executed cell.
\<close>

definition kernel_count :: "world \<Rightarrow> cell_ref \<Rightarrow> int option \<Rightarrow> world" where
  "kernel_count w chatCell n =
     w\<lparr>cells := (cells w)(chatCell := (cells w chatCell)\<lparr>executionCount := n\<rparr>)\<rparr>"

fun insert_below :: "cell_ref \<Rightarrow> cell_ref \<Rightarrow> cell_ref list \<Rightarrow> cell_ref list" where
  "insert_below c r [] = [r]"
| "insert_below c r (w # ws) = (if w = c then w # r # ws else w # insert_below c r ws)"

definition backend_insert :: "world \<Rightarrow> cell_ref \<Rightarrow> cell_ref \<Rightarrow> cell \<Rightarrow> world" where
  "backend_insert w chatCell r new =
     w\<lparr>cells := (cells w)(r := new),
       currentWidget :=
         map_option (\<lambda>nb. nb\<lparr>widgets := insert_below chatCell r (widgets nb)\<rparr>)
           (currentWidget w)\<rparr>"

text \<open>What a handler's result shows of the notebook.\<close>

definition cursor_after :: "error + world \<Rightarrow> int option" where
  "cursor_after r =
     (case r of Inl e \<Rightarrow> None | Inr w \<Rightarrow> map_option activeCellIndex (currentWidget w))"

definition widgets_after :: "error + world \<Rightarrow> cell_ref list option" where
  "widgets_after r =
     (case r of Inl e \<Rightarrow> None | Inr w \<Rightarrow> map_option widgets (currentWidget w))"

definition issued_after :: "error + world \<Rightarrow> command list option" where
  "issued_after r =
     (case r of Inl e \<Rightarrow> None | Inr w \<Rightarrow> map_option issued (currentWidget w))"

definition linked_after :: "error + world \<Rightarrow> string \<Rightarrow> cell_ref list option" where
  "linked_after r t =
     (case r of
        Inl e \<Rightarrow> None
      | Inr w \<Rightarrow> map_option (\<lambda>nb. generatedLinkedTo (cells w) nb t) (currentWidget w))"

definition metadata_after :: "error + world \<Rightarrow> cell_ref \<Rightarrow> ChapyterCellMetadata option" where
  "metadata_after r c = (case r of Inl e \<Rightarrow> None | Inr w \<Rightarrow> ChapyterCell (cells w c))"

section \<open>Example notebooks\<close>

definition code_cell :: "string \<Rightarrow> string \<Rightarrow> cell" where
  "code_cell i s =
     \<lparr>model_id = i, model_type = Code, source = s, executionCount = None,
      ChapyterCell = None, deletable = None, inputHidden = False, classList = []\<rparr>"

definition plain_store :: store where
  "plain_store = (\<lambda>r. code_cell (''c'' @ show_nat r) ''x = 1'')"

text \<open>Five positions; the widget \<open>1\<close> sits at the positions 1 and 3.\<close>

definition notebook5 :: notebook where
  "notebook5 =
     \<lparr>widgets = [0, 1, 2, 1, 4], activeCellIndex = 1, deletedCells = [], selection = [],
      issued = []\<rparr>"

text \<open>Four cells in a row; the cell at position 2 hides its input.\<close>

definition hidden_store :: store where
  "hidden_store = plain_store(2 := (plain_store 2)\<lparr>inputHidden := True\<rparr>)"

definition notebook4 :: "int \<Rightarrow> notebook" where
  "notebook4 a =
     \<lparr>widgets = [0, 1, 2, 3], activeCellIndex = a, deletedCells = [], selection = [],
      issued = []\<rparr>"

text \<open>
  A trigger cell (widget 0, id \<open>t\<close>, execution count 1) directly above the cell that the
  backend generated for it (widget 1, id \<open>g\<close>); neither is tagged yet.
\<close>

definition assistant_text :: "int \<Rightarrow> string" where
  "assistant_text n = searchTemplate (Num n) @ [CHR 0x0A] @ ''print(1)''"

definition pair_store :: "string \<Rightarrow> bool \<Rightarrow> store" where
  "pair_store s hid =
     (\<lambda>r. code_cell ''x'' ''pass'')
       (0 := (code_cell ''t'' s)\<lparr>executionCount := Some 1, inputHidden := hid\<rparr>,
        1 := code_cell ''g'' (assistant_text 1))"

definition pair_notebook :: notebook where
  "pair_notebook =
     \<lparr>widgets = [0, 1], activeCellIndex = 0, deletedCells = [], selection = [], issued = []\<rparr>"

definition pair_world :: "string \<Rightarrow> bool \<Rightarrow> world" where
  "pair_world s hid = \<lparr>cells = pair_store s hid, currentWidget = Some pair_notebook\<rparr>"

text \<open>
  The same pair after a first run: the two cells are linked to each other. The
  \<^verbatim>\<open>deletable\<close> metadata of the generated cell is \<open>d\<close>.
\<close>

definition linked_store :: "bool option \<Rightarrow> store" where
  "linked_store d =
     (\<lambda>r. code_cell ''x'' ''pass'')
       (0 := (code_cell ''t'' ''%chat plot'')
               \<lparr>executionCount := Some 1,
                ChapyterCell := Some \<lparr>linkedCellId = Some ''g'', cellType = Original\<rparr>\<rparr>,
        1 := (code_cell ''g'' (assistant_text 1))
               \<lparr>ChapyterCell := Some \<lparr>linkedCellId = Some ''t'', cellType = Generated\<rparr>,
                deletable := d\<rparr>)"

definition linked_world :: "bool option \<Rightarrow> world" where
  "linked_world d = \<lparr>cells = linked_store d, currentWidget = Some pair_notebook\<rparr>"

text \<open>The state that the handler of \<^verbatim>\<open>executionScheduled\<close> leaves of \<open>linked_world d\<close>
  when it deletes nothing: only the class of the trigger cell is toggled.\<close>

definition scheduled_world :: "bool option \<Rightarrow> world" where
  "scheduled_world d =
     (linked_world d)
       \<lparr>cells := toggleClass (linked_store d) 0 CHAPYTER_CHAT_CELL_EXECUTING\<rparr>"

text \<open>The state that the handler leaves of \<open>linked_world None\<close>: the generated cell is
  deleted.\<close>

definition deleted_world :: world where
  "deleted_world =
     \<lparr>cells = toggleClass (linked_store None) 0 CHAPYTER_CHAT_CELL_EXECUTING,
      currentWidget = Some (pair_notebook\<lparr>widgets := [0], deletedCells := [''g'']\<rparr>)\<rparr>"

text \<open>The second run: execution count 2, and a new generated cell (widget 2, id \<open>g2\<close>).\<close>

definition reply_world :: "world \<Rightarrow> world" where
  "reply_world w =
     backend_insert (kernel_count w 0 (Some 2)) 0 2 (code_cell ''g2'' (assistant_text 2))"

definition plain_world :: world where
  "plain_world = \<lparr>cells = plain_store, currentWidget = Some notebook5\<rparr>"

section \<open>Magic detection\<close>

text \<open>
  C2: \<open>isCellChapyterMagicCell\<close> is true exactly when the text starts with \<^verbatim>\<open>%chat\<close> or
  \<^verbatim>\<open>%%chat\<close> and (it does not start with \<^verbatim>\<open>%%chatonly\<close>, or \<open>strict\<close> is false). So a
  \<^verbatim>\<open>%%chatonly\<close> cell is rejected in strict mode and accepted otherwise, and in loose
  mode the \<^verbatim>\<open>chatonly\<close> prefix plays no part.
\<close>

theorem isCellChapyterMagicCell_rule:
  "(isCellChapyterMagicCell c strict =
     ((startsWith (source c) ''%chat'' \<or> startsWith (source c) ''%%chat'') \<and>
      (\<not> startsWith (source c) ''%%chatonly'' \<or> \<not> strict))) \<and>
   (startsWith (source c) ''%%chatonly'' \<longrightarrow>
      \<not> isCellChapyterMagicCell c True \<and> isCellChapyterMagicCell c False) \<and>
   (startsWith (source c) ''%chat'' \<or> startsWith (source c) ''%%chat'' \<longrightarrow>
      isCellChapyterMagicCell c False)"
proof -
  have "prefix ''%%chatonly'' s \<Longrightarrow> prefix ''%%chat'' s" for s :: string
    by (auto simp: prefix_def)
  then show ?thesis
    by (auto simp: isCellChapyterMagicCell_def startsWith_def Let_def)
qed

theorem isCellChapyterMagicCell_rule_witness:
  "startsWith (source (code_cell ''t'' ''%%chatonly plot'')) ''%%chatonly'' \<and>
   \<not> isCellChapyterMagicCell (code_cell ''t'' ''%%chatonly plot'') True \<and>
   isCellChapyterMagicCell (code_cell ''t'' ''%%chatonly plot'') False"
  using isCellChapyterMagicCell_rule [of "code_cell ''t'' ''%%chatonly plot''" True]
  by (simp add: code_cell_def startsWith_def)

section \<open>Template search\<close>

text \<open>
  C10: \<open>findCellByTemplateString\<close> returns null for the execution id 0, whatever the
  notebook holds: the guard \<^verbatim>\<open>if (executionId)\<close> takes 0 for absent.
\<close>

theorem findCellByTemplateString_zero:
  "findCellByTemplateString h nb (Num 0) = None"
  by (simp add: findCellByTemplateString_def)

section \<open>Events that the handlers ignore\<close>

text \<open>
  C6: an \<^verbatim>\<open>executed\<close> event whose success flag is false changes nothing: the cells, their
  metadata, the notebook, its cursor and the requests to the host are as before.
\<close>

theorem onExecuted_failure_noop:
  "onExecuted w False chatCell = Inr w"
  by (simp add: onExecuted_def)

text \<open>
  C7: for a cell whose text starts with neither \<^verbatim>\<open>%chat\<close> nor \<^verbatim>\<open>%%chat\<close>, the handlers
  of \<^verbatim>\<open>executionScheduled\<close> and of \<^verbatim>\<open>executed\<close> leave every cell, the cell sequence
  and the cursor as they were.
\<close>

theorem non_magic_cell_ignored:
  "\<not> startsWith (source (cells w chatCell)) ''%chat'' \<and>
   \<not> startsWith (source (cells w chatCell)) ''%%chat'' \<Longrightarrow>
   onExecutionScheduled w chatCell = Inr w \<and> onExecuted w success chatCell = Inr w"
  by (simp add: onExecuted_def onExecutionScheduled_def isCellChapyterMagicCell_def)

theorem non_magic_cell_ignored_witness:
  "\<not> startsWith (source (cells plain_world 2)) ''%chat'' \<and>
   \<not> startsWith (source (cells plain_world 2)) ''%%chat'' \<and>
   onExecutionScheduled plain_world 2 = Inr plain_world \<and>
   onExecuted plain_world True 2 = Inr plain_world"
proof -
  have h: "\<not> startsWith (source (cells plain_world 2)) ''%chat'' \<and>
           \<not> startsWith (source (cells plain_world 2)) ''%%chat''"
    by (simp add: plain_world_def plain_store_def code_cell_def startsWith_def)
  show ?thesis
    using h non_magic_cell_ignored [OF h, of True] by simp
qed

section \<open>Cell deletion\<close>

lemma fold_delete_append:
  "sorted_wrt (>) ds \<Longrightarrow> \<forall>d\<in>set ds. d < length ws \<Longrightarrow>
   fold sharedModel_deleteCell ds (ws @ ys) = fold sharedModel_deleteCell ds ws @ ys"
proof (induction ds arbitrary: ws)
  case Nil
  then show ?case by simp
next
  case (Cons d ds)
  have d: "d < length ws" using Cons.prems by simp
  have step: "sharedModel_deleteCell d (ws @ ys) = sharedModel_deleteCell d ws @ ys"
    using d by (simp add: sharedModel_deleteCell_def)
  have len: "length (sharedModel_deleteCell d ws) = length ws - 1"
    using d by (simp add: sharedModel_deleteCell_def)
  have "\<forall>e\<in>set ds. e < length (sharedModel_deleteCell d ws)"
    using Cons.prems d len by auto
  moreover have "sorted_wrt (>) ds" using Cons.prems by simp
  ultimately show ?case using Cons.IH step by simp
qed

lemma positions_snoc:
  "positions (ws @ [x]) c = positions ws c @ (if x = c then [length ws] else [])"
  by (auto simp: positions_def nth_append intro!: filter_cong)

lemma positions_bound: "\<forall>i\<in>set (positions ws c). i < length ws"
  by (simp add: positions_def)

lemma positions_sorted: "sorted_wrt (<) (positions ws c)"
  unfolding positions_def by (rule sorted_wrt_filter) simp

lemma fold_delete_positions:
  "fold sharedModel_deleteCell (rev (positions ws c)) ws = removeAll c ws"
proof (induction ws rule: rev_induct)
  case Nil
  then show ?case by (simp add: positions_def)
next
  case (snoc x ws)
  have srt: "sorted_wrt (>) (rev (positions ws c))"
    using positions_sorted[of ws c] by (simp add: sorted_wrt_rev)
  have bnd: "\<forall>d\<in>set (rev (positions ws c)). d < length ws"
    using positions_bound[of ws c] by simp
  show ?case
  proof (cases "x = c")
    case True
    have "sharedModel_deleteCell (length ws) (ws @ [x]) = ws"
      by (simp add: sharedModel_deleteCell_def)
    then show ?thesis using True snoc.IH by (simp add: positions_snoc)
  next
    case False
    then show ?thesis
      using fold_delete_append[OF srt bnd, of "[x]"] snoc.IH by (simp add: positions_snoc)
  qed
qed

lemma positions_Nil: "positions [] c = []"
  by (simp add: positions_def)

lemma length_positions: "length (positions ws c) + length (removeAll c ws) = length ws"
  by (induction ws rule: rev_induct) (auto simp: positions_snoc positions_Nil)

lemma toDelete_of_positions:
  "toDelete_of h nb c =
     (if deletable (h c) \<noteq> Some False then positions (widgets nb) c else [])"
  by (auto simp: toDelete_of_def positions_def intro!: filter_cong filter_False)

lemma sorted_last_bound:
  "sorted_wrt (<) (xs :: nat list) \<Longrightarrow> xs \<noteq> [] \<Longrightarrow> length xs \<le> last xs + 1"
proof (induction xs rule: rev_induct)
  case Nil
  then show ?case by simp
next
  case (snoc x xs)
  show ?case
  proof (cases "xs = []")
    case True
    then show ?thesis by simp
  next
    case False
    have "sorted_wrt (<) xs" using snoc.prems by (simp add: sorted_wrt_append)
    then have "length xs \<le> last xs + 1" using snoc.IH False by simp
    moreover have "last xs < x"
      using snoc.prems False by (simp add: sorted_wrt_append)
    ultimately show ?thesis by simp
  qed
qed

lemma sorted_last_greatest:
  "sorted_wrt (<) (xs :: nat list) \<Longrightarrow> i \<in> set xs \<Longrightarrow> i \<le> last xs"
  by (induction xs rule: rev_induct) (auto simp: sorted_wrt_append less_imp_le)

lemma toDelete_of_sorted: "sorted_wrt (<) (toDelete_of h nb c)"
  by (simp add: toDelete_of_positions positions_sorted)

lemma widgets_deleteCell:
  "widgets (deleteCell h nb c) =
     (if deletable (h c) \<noteq> Some False then removeAll c (widgets nb) else widgets nb)"
proof (cases "toDelete_of h nb c = []")
  case True
  then have "deletable (h c) \<noteq> Some False \<Longrightarrow> removeAll c (widgets nb) = widgets nb"
    using length_positions[of "widgets nb" c]
    by (metis fold_delete_positions fold_simps(1) rev.simps(1) toDelete_of_positions)
  then show ?thesis using True
    by (simp add: deleteCell_def Let_def deselectAll_def)
next
  case False
  then have "deletable (h c) \<noteq> Some False" and "toDelete_of h nb c = positions (widgets nb) c"
    by (auto simp: toDelete_of_positions split: if_splits)
  then show ?thesis using False
    by (simp add: deleteCell_def Let_def deselectAll_def set_activeCellIndex_def
        fold_delete_positions)
qed

lemma activeCellIndex_deleteCell:
  "toDelete_of h nb c \<noteq> [] \<Longrightarrow>
   activeCellIndex (deleteCell h nb c) =
     (if widgets (deleteCell h nb c) = [] then -1
      else max 0 (min (int (last (toDelete_of h nb c)) - int (length (toDelete_of h nb c)) + 1)
                   (int (length (widgets (deleteCell h nb c))) - 1)))"
  by (simp add: deleteCell_def Let_def deselectAll_def set_activeCellIndex_def hd_rev)

text \<open>
  C1, as the code has it: when \<open>deleteCell\<close> deletes at least one position, the cursor is
  set to the largest deleted position minus the number of deleted positions plus one,
  clamped by the host to the cells that remain; when the largest deleted position is
  not the last cell of the notebook the clamp changes nothing. The deleted positions are
  the ones collected in \<open>toDelete_of\<close>, and the list of widgets shrinks by their number.
\<close>

theorem deleteCell_activeCellIndex:
  assumes "toDelete_of h nb c \<noteq> []"
  shows "(\<forall>index\<in>set (toDelete_of h nb c). index \<le> last (toDelete_of h nb c)) \<and>
     length (widgets (deleteCell h nb c)) =
       length (widgets nb) - length (toDelete_of h nb c) \<and>
     activeCellIndex (deleteCell h nb c) =
       (if widgets (deleteCell h nb c) = [] then -1
        else min (int (last (toDelete_of h nb c)) - int (length (toDelete_of h nb c)) + 1)
               (int (length (widgets (deleteCell h nb c))) - 1)) \<and>
     (last (toDelete_of h nb c) + 1 < length (widgets nb) \<longrightarrow>
        activeCellIndex (deleteCell h nb c) =
          int (last (toDelete_of h nb c)) - int (length (toDelete_of h nb c)) + 1)"
proof -
  let ?td = "toDelete_of h nb c"
  let ?nb = "deleteCell h nb c"
  have del: "deletable (h c) \<noteq> Some False" and td: "?td = positions (widgets nb) c"
    using assms by (auto simp: toDelete_of_positions split: if_splits)
  have greatest: "\<forall>index\<in>set ?td. index \<le> last ?td"
    using sorted_last_greatest[OF toDelete_of_sorted] by blast
  have len: "length (widgets ?nb) = length (widgets nb) - length ?td"
    using length_positions[of "widgets nb" c] del td by (simp add: widgets_deleteCell)
  have lower: "length ?td \<le> last ?td + 1"
    using sorted_last_bound[OF toDelete_of_sorted assms] .
  have "last ?td \<in> set ?td" using assms by simp
  then have upper: "last ?td < length (widgets nb)"
    using positions_bound[of "widgets nb" c] td by simp
  have total: "length ?td + length (widgets ?nb) = length (widgets nb)"
    using length_positions[of "widgets nb" c] del td by (simp add: widgets_deleteCell)
  have cur: "activeCellIndex ?nb =
       (if widgets ?nb = [] then -1
        else min (int (last ?td) - int (length ?td) + 1) (int (length (widgets ?nb)) - 1))"
    using activeCellIndex_deleteCell[OF assms] lower by (auto simp: max_def min_def)
  have "activeCellIndex ?nb = int (last ?td) - int (length ?td) + 1"
    if "last ?td + 1 < length (widgets nb)"
  proof -
    have "widgets ?nb \<noteq> []" using that total lower by auto
    moreover have "int (last ?td) - int (length ?td) + 1 \<le> int (length (widgets ?nb)) - 1"
      using that total by linarith
    ultimately show ?thesis using cur by simp
  qed
  then show ?thesis using greatest len cur by blast
qed

theorem deleteCell_activeCellIndex_witness:
  "toDelete_of plain_store notebook5 1 \<noteq> [] \<and>
   last (toDelete_of plain_store notebook5 1) + 1 < length (widgets notebook5) \<and>
   activeCellIndex (deleteCell plain_store notebook5 1) = 3 - 2 + 1"
proof -
  have td: "toDelete_of plain_store notebook5 1 = [1, 3]"
    by (simp add: toDelete_of_def notebook5_def plain_store_def code_cell_def upt_rec)
  have h: "toDelete_of plain_store notebook5 1 \<noteq> []"
    using td by simp
  show ?thesis
    using h td deleteCell_activeCellIndex [OF h] by (simp add: notebook5_def)
qed

text \<open>
  C1 as stated fails: deleting the widget at the positions 1 and 3 of five leaves the
  cursor at 2, not at \<open>1 - 2 + 1 = 0\<close>. And deleting the last of four cells, at position
  3, leaves the cursor at 2, the last cell that remains, not at \<open>3 - 1 + 1 = 3\<close>.
\<close>

theorem deleteCell_first_index_counterexample:
  "toDelete_of plain_store notebook5 1 = [1, 3] \<and>
   length (widgets notebook5) = 5 \<and>
   activeCellIndex (deleteCell plain_store notebook5 1) = 2 \<and>
   activeCellIndex (deleteCell plain_store notebook5 1) \<noteq>
     int (hd (toDelete_of plain_store notebook5 1)) -
     int (length (toDelete_of plain_store notebook5 1)) + 1 \<and>
   toDelete_of plain_store (notebook4 0) 3 = [3] \<and>
   activeCellIndex (deleteCell plain_store (notebook4 0) 3) = 2"
  by (simp add: deleteCell_def toDelete_of_def notebook5_def notebook4_def plain_store_def
      code_cell_def upt_rec Let_def set_activeCellIndex_def sharedModel_deleteCell_def
      deselectAll_def)


section \<open>Cursor navigation\<close>

lemma findCellIndexById_from_range:
  "0 \<le> k \<Longrightarrow> findCellIndexById_from h ws k i = -1 \<or>
     (k \<le> findCellIndexById_from h ws k i \<and>
      findCellIndexById_from h ws k i < k + int (length ws))"
proof (induction ws arbitrary: k)
  case Nil
  then show ?case by simp
next
  case (Cons w ws)
  from Cons.IH[of "k + 1"] Cons.prems show ?case by auto
qed

lemma findCellIndexById_from_none:
  "0 \<le> k \<Longrightarrow> (findCellIndexById_from h ws k i = -1) = (i \<notin> model_id ` h ` set ws)"
proof (induction ws arbitrary: k)
  case Nil
  then show ?case by simp
next
  case (Cons w ws)
  from Cons.IH[of "k + 1"] Cons.prems show ?case by auto
qed

lemma findCellIndexById_from_first:
  "0 \<le> k \<Longrightarrow> findCellIndexById_from h ws k i \<noteq> -1 \<Longrightarrow>
   model_id (h (ws ! nat (findCellIndexById_from h ws k i - k))) = i \<and>
   (\<forall>j < nat (findCellIndexById_from h ws k i - k). model_id (h (ws ! j)) \<noteq> i)"
proof (induction ws arbitrary: k)
  case Nil
  then show ?case by simp
next
  case (Cons w ws)
  show ?case
  proof (cases "model_id (h w) = i")
    case True
    then show ?thesis by simp
  next
    case False
    let ?t = "findCellIndexById_from h ws (k + 1) i"
    have t: "findCellIndexById_from h (w # ws) k i = ?t" using False by simp
    have ne: "?t \<noteq> -1" using Cons.prems t by simp
    have rng: "k + 1 \<le> ?t"
      using findCellIndexById_from_range[of "k + 1" h ws i] ne Cons.prems by auto
    have ih: "model_id (h (ws ! nat (?t - (k + 1)))) = i \<and>
        (\<forall>j < nat (?t - (k + 1)). model_id (h (ws ! j)) \<noteq> i)"
      using Cons.IH[of "k + 1"] ne Cons.prems by simp
    have idx: "nat (?t - k) = Suc (nat (?t - (k + 1)))" using rng by linarith
    show ?thesis unfolding t idx using ih False
      by (auto simp: nth_Cons split: nat.splits)
  qed
qed

lemma findCellIndexById_range:
  "findCellIndexById h nb i = -1 \<or>
   (0 \<le> findCellIndexById h nb i \<and> findCellIndexById h nb i < int (length (widgets nb)))"
  using findCellIndexById_from_range[of 0 h "widgets nb" i] by (simp add: findCellIndexById_def)


lemma findCellIndexById_none:
  "(findCellIndexById h nb i = -1) = (i \<notin> model_id ` h ` set (widgets nb))"
  using findCellIndexById_from_none[of 0 h "widgets nb" i] by (simp add: findCellIndexById_def)

lemma findCellIndexById_found:
  assumes "i \<in> model_id ` h ` set (widgets nb)"
  shows "0 \<le> findCellIndexById h nb i \<and>
      findCellIndexById h nb i < int (length (widgets nb)) \<and>
      model_id (h (widgets nb ! nat (findCellIndexById h nb i))) = i \<and>
      (\<forall>j < nat (findCellIndexById h nb i). model_id (h (widgets nb ! j)) \<noteq> i)"
proof -
  let ?t = "findCellIndexById h nb i"
  have ne: "?t \<noteq> -1" using assms findCellIndexById_none by simp
  then have "0 \<le> ?t \<and> ?t < int (length (widgets nb))"
    using findCellIndexById_range[of h nb i] by simp
  moreover have "model_id (h (widgets nb ! nat ?t)) = i \<and>
      (\<forall>j < nat ?t. model_id (h (widgets nb ! j)) \<noteq> i)"
    using findCellIndexById_from_first[of 0 h "widgets nb" i] ne
    by (simp add: findCellIndexById_def)
  ultimately show ?thesis by simp
qed

lemma selectCellById_not_found:
  "i \<notin> model_id ` h ` set (widgets nb) \<Longrightarrow> selectCellById h nb i = Inr nb"
  using findCellIndexById_none[of h nb i] by (simp add: selectCellById_def)

lemma selectCellById_active:
  "findCellIndexById h nb i = activeCellIndex nb \<Longrightarrow> selectCellById h nb i = Inr nb"
  by (simp add: selectCellById_def Let_def)

lemma cursor_ok_set_activeCellIndex: "cursor_ok (set_activeCellIndex nb v)"
  by (auto simp: cursor_ok_def set_activeCellIndex_def)

lemma selectBelow_frame:
  "widgets (selectBelow h nb) = widgets nb"
  "issued (selectBelow h nb) = issued nb @ [SelectBelow]"
  "cursor_ok nb \<Longrightarrow> cursor_ok (selectBelow h nb)"
  by (auto simp: selectBelow_def Let_def deselectAll_def set_activeCellIndex_def cursor_ok_def
      split: option.splits)

lemma selectAbove_frame:
  "widgets (selectAbove h nb) = widgets nb"
  "issued (selectAbove h nb) = issued nb @ [SelectAbove]"
  "cursor_ok nb \<Longrightarrow> cursor_ok (selectAbove h nb)"
  by (auto simp: selectAbove_def Let_def deselectAll_def set_activeCellIndex_def cursor_ok_def
      split: option.splits)

lemma cursor_ok_run: "cursor_ok nb \<Longrightarrow> cursor_ok (run nb)"
  by (simp add: cursor_ok_def run_def)

text \<open>
  The loops of \<open>selectCellById\<close> read only positions of the notebook when they start at
  a position of the notebook and the target is one: they return, leave the widgets
  alone and ask the host for steps only.
\<close>

lemma selectBelow_loop_frame:
  "0 \<le> i \<Longrightarrow> t \<le> int (length (widgets nb)) \<Longrightarrow> cursor_ok nb \<Longrightarrow>
   \<exists>nb' steps. selectBelow_loop h i t nb = Inr nb' \<and> widgets nb' = widgets nb \<and>
     issued nb' = issued nb @ steps \<and> Run \<notin> set steps \<and> cursor_ok nb'"
proof (induction h i t nb rule: selectBelow_loop.induct)
  case (1 h i t nb)
  show ?case
  proof (cases "i < t")
    case False
    then have "selectBelow_loop h i t nb = Inr nb"
      by (simp add: selectBelow_loop.simps[of h i t nb])
    then show ?thesis using "1.prems" by simp
  next
    case True
    let ?w = "widgets nb ! nat i"
    let ?nb = "if \<not> inputHidden (h ?w) then selectBelow h nb else nb"
    have w: "widget_at nb i = Some ?w"
      using True "1.prems" by (simp add: widget_at_def)
    have ws: "widgets ?nb = widgets nb" by (simp add: selectBelow_frame)
    have ok: "cursor_ok ?nb" using "1.prems" by (simp add: selectBelow_frame)
    obtain first where first: "issued ?nb = issued nb @ first" "Run \<notin> set first"
      by (cases "inputHidden (h ?w)") (simp_all add: selectBelow_frame)
    obtain nb' steps where ih: "selectBelow_loop h (i + 1) t ?nb = Inr nb'"
      "widgets nb' = widgets ?nb" "issued nb' = issued ?nb @ steps" "Run \<notin> set steps"
      "cursor_ok nb'"
      using "1.IH"[OF True w] "1.prems" ws ok by auto
    have "selectBelow_loop h i t nb = Inr nb'"
      using True w ih(1) by (simp add: selectBelow_loop.simps[of h i t nb])
    moreover have "issued nb' = issued nb @ (first @ steps)" using ih(3) first(1) by simp
    moreover have "Run \<notin> set (first @ steps)" using ih(4) first(2) by simp
    moreover have "widgets nb' = widgets nb" using ih(2) ws by simp
    ultimately show ?thesis using ih(5) by blast
  qed
qed

lemma selectAbove_loop_frame:
  "0 \<le> t \<Longrightarrow> i < int (length (widgets nb)) \<Longrightarrow> cursor_ok nb \<Longrightarrow>
   \<exists>nb' steps. selectAbove_loop h i t nb = Inr nb' \<and> widgets nb' = widgets nb \<and>
     issued nb' = issued nb @ steps \<and> Run \<notin> set steps \<and> cursor_ok nb'"
proof (induction h i t nb rule: selectAbove_loop.induct)
  case (1 h i t nb)
  show ?case
  proof (cases "i > t")
    case False
    then have "selectAbove_loop h i t nb = Inr nb"
      by (simp add: selectAbove_loop.simps[of h i t nb])
    then show ?thesis using "1.prems" by simp
  next
    case True
    let ?w = "widgets nb ! nat i"
    let ?nb = "if \<not> inputHidden (h ?w) then selectAbove h nb else nb"
    have w: "widget_at nb i = Some ?w"
      using True "1.prems" by (simp add: widget_at_def)
    have ws: "widgets ?nb = widgets nb" by (simp add: selectAbove_frame)
    have ok: "cursor_ok ?nb" using "1.prems" by (simp add: selectAbove_frame)
    obtain first where first: "issued ?nb = issued nb @ first" "Run \<notin> set first"
      by (cases "inputHidden (h ?w)") (simp_all add: selectAbove_frame)
    obtain nb' steps where ih: "selectAbove_loop h (i - 1) t ?nb = Inr nb'"
      "widgets nb' = widgets ?nb" "issued nb' = issued ?nb @ steps" "Run \<notin> set steps"
      "cursor_ok nb'"
      using "1.IH"[OF True w] "1.prems" ws ok by auto
    have "selectAbove_loop h i t nb = Inr nb'"
      using True w ih(1) by (simp add: selectAbove_loop.simps[of h i t nb])
    moreover have "issued nb' = issued nb @ (first @ steps)" using ih(3) first(1) by simp
    moreover have "Run \<notin> set (first @ steps)" using ih(4) first(2) by simp
    moreover have "widgets nb' = widgets nb" using ih(2) ws by simp
    ultimately show ?thesis using ih(5) by blast
  qed
qed

lemma selectCellById_frame:
  assumes "cursor_ok nb"
  shows "\<exists>nb' steps. selectCellById h nb i = Inr nb' \<and> widgets nb' = widgets nb \<and>
     issued nb' = issued nb @ steps \<and> Run \<notin> set steps \<and> cursor_ok nb'"
proof (cases "i \<in> model_id ` h ` set (widgets nb)")
  case False
  then show ?thesis using assms selectCellById_not_found[of i h nb] by simp
next
  case True
  let ?t = "findCellIndexById h nb i"
  let ?a = "activeCellIndex nb"
  have rng: "0 \<le> ?t \<and> ?t < int (length (widgets nb))"
    using findCellIndexById_found[OF True] by simp
  then have "widgets nb \<noteq> []" by auto
  then have cur: "0 \<le> ?a \<and> ?a < int (length (widgets nb))"
    using assms by (simp add: cursor_ok_def)
  consider (same) "?t = ?a" | (below) "?a < ?t" | (above) "?t < ?a" by linarith
  then show ?thesis
  proof cases
    case same
    then show ?thesis using assms selectCellById_active[of h nb i] by simp
  next
    case below
    have "selectCellById h nb i = selectBelow_loop h ?a ?t nb"
      using below rng by (auto simp: selectCellById_def Let_def)
    then show ?thesis
      using selectBelow_loop_frame[of ?a ?t nb h] cur rng assms by simp
  next
    case above
    have "selectCellById h nb i = selectAbove_loop h ?a ?t nb"
      using above rng by (auto simp: selectCellById_def Let_def)
    then show ?thesis
      using selectAbove_loop_frame[of ?t ?a nb h] cur rng assms by simp
  qed
qed


text \<open>
  C8: \<open>selectCellById\<close> is to move the cursor to the cell with the given id. In a row of
  four cells of which the one at position 2 hides its input, the walk from position 0
  reaches the target at position 3 and the walk from position 3 reaches the target at
  position 0, the host passing over the hidden cell. But with the cursor on the hidden
  cell at position 2 the only step of the walk is skipped: no request is made and the
  cursor stays at 2, not on the target at position 3. An id that is not in the
  notebook, or the id of the active cell, leaves the notebook as it was.
\<close>

theorem selectCellById_hidden_start:
  "inputHidden (hidden_store (widgets (notebook4 2) ! 2)) \<and>
   findCellIndexById hidden_store (notebook4 2) ''c3'' = 3 \<and>
   selectCellById hidden_store (notebook4 2) ''c3'' = Inr (notebook4 2) \<and>
   activeCellIndex (notebook4 2) = 2 \<and>
   selectCellById hidden_store (notebook4 0) ''c3'' =
     Inr ((notebook4 0)\<lparr>activeCellIndex := 3, issued := [SelectBelow, SelectBelow]\<rparr>) \<and>
   selectCellById hidden_store (notebook4 3) ''c0'' =
     Inr ((notebook4 3)\<lparr>activeCellIndex := 0, issued := [SelectAbove, SelectAbove]\<rparr>) \<and>
   selectCellById hidden_store (notebook4 1) ''zz'' = Inr (notebook4 1) \<and>
   selectCellById hidden_store (notebook4 1) ''c1'' = Inr (notebook4 1)"
  by (simp add: selectCellById_def findCellIndexById_def hidden_store_def plain_store_def
      code_cell_def digit_def notebook4_def Let_def selectBelow_loop.simps
      selectAbove_loop.simps widget_at_def selectBelow_def selectAbove_def lastShown_def
      firstShownBelow_def firstShownAbove_def shows_input_def set_activeCellIndex_def
      deselectAll_def upt_rec)

section \<open>What the searches depend on\<close>

lemma findCellByTemplateString_from_cong:
  "\<forall>r. model_type (h' r) = model_type (h r) \<and> source (h' r) = source (h r) \<Longrightarrow>
   findCellByTemplateString_from h' ws t = findCellByTemplateString_from h ws t"
  by (induction ws) simp_all

lemma findCellByTemplateString_cong:
  "\<forall>r. model_type (h' r) = model_type (h r) \<and> source (h' r) = source (h r) \<Longrightarrow>
   findCellByTemplateString h' nb e = findCellByTemplateString h nb e"
  using findCellByTemplateString_from_cong[of h' h]
  by (simp add: findCellByTemplateString_def)

lemma findCellByTemplateString_from_Some:
  "findCellByTemplateString_from h ws t = Some a \<Longrightarrow>
   a \<in> set ws \<and> model_type (h a) = Code \<and> startsWith (split_first (source (h a))) t"
  by (induction ws) (auto split: if_splits)

lemma findCellByTemplateString_Some:
  "findCellByTemplateString h nb e = Some a \<Longrightarrow>
   a \<in> set (widgets nb) \<and> model_type (h a) = Code \<and>
   startsWith (split_first (source (h a))) (searchTemplate e)"
  using findCellByTemplateString_from_Some[of h "widgets nb" "searchTemplate e" a]
  by (simp add: findCellByTemplateString_def split: if_splits)

lemma template_not_magic:
  assumes "startsWith (split_first s) (searchTemplate e)"
  shows "\<not> startsWith s ''%chat'' \<and> \<not> startsWith s ''%%chat''"
proof (cases s)
  case Nil
  then show ?thesis using assms by (simp add: startsWith_def split_first_def searchTemplate_def)
next
  case (Cons c cs)
  then have "c = CHR ''#''"
    using assms by (auto simp: startsWith_def split_first_def searchTemplate_def split: if_splits)
  then show ?thesis using Cons by (simp add: startsWith_def)
qed

lemma found_is_not_trigger:
  assumes "findCellByTemplateString h nb e = Some a" "isCellChapyterMagicCell (h c) strict"
  shows "a \<noteq> c"
proof
  assume "a = c"
  then have "startsWith (split_first (source (h c))) (searchTemplate e)"
    using findCellByTemplateString_Some[OF assms(1)] by simp
  then have "\<not> startsWith (source (h c)) ''%chat'' \<and> \<not> startsWith (source (h c)) ''%%chat''"
    by (rule template_not_magic)
  then show False using assms(2) by (simp add: isCellChapyterMagicCell_def)
qed

lemma findCellById_from_Some:
  "findCellById_from h ws l = Some g \<Longrightarrow> g \<in> set ws \<and> model_id (h g) = l"
  by (induction ws) (auto split: if_splits)

lemma findCellById_from_None:
  "(findCellById_from h ws l = None) = (l \<notin> model_id ` h ` set ws)"
  by (induction ws) auto

lemma findCellById_from_cong:
  "\<forall>r. model_id (h' r) = model_id (h r) \<Longrightarrow>
   findCellById_from h' ws l = findCellById_from h ws l"
  by (induction ws) simp_all


section \<open>The handler of executed\<close>

lemmas example_defs = pair_world_def pair_store_def pair_notebook_def code_cell_def
  assistant_text_def searchTemplate_def show_int_def digit_def linked_world_def linked_store_def
  scheduled_world_def deleted_world_def reply_world_def backend_insert_def kernel_count_def

lemmas handler_defs = onExecuted_def onExecutionScheduled_def link_assistanceCell_def
  tag_original_def isCellChapyterMagicCell_def isCellChapyterMagicCellSafeMode_def
  isCellNotGenerated_def startsWith_def split_first_def findCellByTemplateString_def
  executionId_of_def setMetadata_ChapyterCell_def selectCellById_def findCellIndexById_def
  findCellById_def selectBelow_loop.simps selectAbove_loop.simps widget_at_def selectBelow_def
  selectAbove_def lastShown_def firstShownBelow_def firstShownAbove_def
  shows_input_def run_def addClass_def removeClass_def toggleClass_def deleteCell_def
  toDelete_of_def set_activeCellIndex_def deselectAll_def sharedModel_deleteCell_def Let_def
  CHAPYTER_CHAT_CELL_def CHAPYTER_CHAT_CELL_EXECUTING_def CHAPYTER_ASSISTANCE_CELL_def
  cursor_ok_def

lemmas result_defs = cursor_after_def widgets_after_def issued_after_def linked_after_def
  metadata_after_def generatedLinkedTo_def

lemma tag_original_same:
  "model_id (tag_original h c r) = model_id (h r)"
  "model_type (tag_original h c r) = model_type (h r)"
  "source (tag_original h c r) = source (h r)"
  "inputHidden (tag_original h c r) = inputHidden (h r)"
  "executionCount (tag_original h c r) = executionCount (h r)"
  "r \<noteq> c \<Longrightarrow> tag_original h c r = h r"
  by (simp_all add: tag_original_def setMetadata_ChapyterCell_def)


text \<open>The store that \<open>link_assistanceCell\<close> leaves, whatever the notebook is.\<close>

lemma link_assistanceCell_store:
  assumes "link_assistanceCell h nb c a safe = Inr (h', nb')" "a \<noteq> c"
  shows "ChapyterCell (h' c) = Some \<lparr>linkedCellId = Some (model_id (h a)), cellType = Original\<rparr>"
    and "ChapyterCell (h' a) = Some \<lparr>linkedCellId = Some (model_id (h c)), cellType = Generated\<rparr>"
    and "\<forall>r. model_id (h' r) = model_id (h r)"
    and "\<forall>r. r \<noteq> a \<and> r \<noteq> c \<longrightarrow> ChapyterCell (h' r) = ChapyterCell (h r)"
    and "safe \<longrightarrow> (\<forall>r. inputHidden (h' r) = inputHidden (h r))"
  using assms
  by (auto simp: link_assistanceCell_def Let_def setMetadata_ChapyterCell_def addClass_def
      removeClass_def split: sum.splits if_splits)

lemma link_assistanceCell_total:
  assumes "cursor_ok nb"
  shows "\<exists>h' nb'. link_assistanceCell h nb c a safe = Inr (h', nb') \<and>
     widgets nb' = widgets nb \<and> cursor_ok nb'"
proof -
  let ?h1 = "setMetadata_ChapyterCell h a
       \<lparr>linkedCellId = Some (model_id (h c)), cellType = Generated\<rparr>"
  show ?thesis
  proof (cases safe)
    case True
    obtain nb3 where "selectCellById ?h1 nb (model_id (?h1 a)) = Inr nb3"
      "widgets nb3 = widgets nb" "cursor_ok nb3"
      using selectCellById_frame[OF assms] by blast
    then show ?thesis using True
      by (simp add: link_assistanceCell_def Let_def)
  next
    case False
    let ?h2 = "?h1(a := (?h1 a)\<lparr>inputHidden := True\<rparr>)"
    obtain nb1 where n1: "selectCellById ?h1 nb (model_id (?h1 a)) = Inr nb1"
      "widgets nb1 = widgets nb" "cursor_ok nb1"
      using selectCellById_frame[OF assms] by blast
    have "cursor_ok (run nb1)" using n1 by (simp add: cursor_ok_run)
    then obtain nb3 where n3: "selectCellById ?h2 (run nb1) (model_id (?h2 a)) = Inr nb3"
      "widgets nb3 = widgets (run nb1)" "cursor_ok nb3"
      using selectCellById_frame by blast
    have "widgets (selectBelow ?h2 nb3) = widgets nb"
      using n1 n3 by (simp add: selectBelow_frame run_def)
    moreover have "cursor_ok (selectBelow ?h2 nb3)" using n3 by (simp add: selectBelow_frame)
    ultimately show ?thesis using False n1 n3
      by (simp add: link_assistanceCell_def Let_def)
  qed
qed

lemma onExecuted_found:
  assumes "isCellChapyterMagicCell (cells w c) True" "isCellNotGenerated (cells w c)"
    "currentWidget w = Some nb"
    "findCellByTemplateString (cells w) nb (executionId_of (executionCount (cells w c))) = Some a"
  shows "onExecuted w True c =
     (case link_assistanceCell (tag_original (cells w) c) nb c a
             (isCellChapyterMagicCellSafeMode (cells w c)) of
        Inl e \<Rightarrow> Inl e
      | Inr (h', nb') \<Rightarrow> Inr (w\<lparr>cells := h', currentWidget := Some nb'\<rparr>))"
proof -
  have "findCellByTemplateString (tag_original (cells w) c) nb
          (executionId_of (executionCount (tag_original (cells w) c c))) = Some a"
    using assms(4) findCellByTemplateString_cong[of "tag_original (cells w) c" "cells w" nb]
    by (simp add: tag_original_same)
  moreover have "isCellChapyterMagicCellSafeMode (tag_original (cells w) c c) =
      isCellChapyterMagicCellSafeMode (cells w c)"
    by (simp add: isCellChapyterMagicCellSafeMode_def tag_original_same)
  ultimately show ?thesis using assms(1,2,3)
    by (simp add: onExecuted_def Let_def)
qed

text \<open>
  C4: when the handler of \<^verbatim>\<open>executed\<close> runs with success on a strict magic trigger cell and
  finds the generated cell by its marker, then afterwards the trigger cell is tagged
  \<open>Original\<close> with the id of the generated cell, and the generated cell is tagged
  \<open>Generated\<close> with the id of the trigger cell. The handler returns whenever the cursor
  is on a cell of the notebook.
\<close>

theorem executed_links_both_ways:
  assumes "isCellChapyterMagicCell (cells w chatCell) True"
    and "isCellNotGenerated (cells w chatCell)"
    and "currentWidget w = Some nb"
    and "findCellByTemplateString (cells w) nb
           (executionId_of (executionCount (cells w chatCell))) = Some assistanceCell"
  shows "(cursor_ok nb \<longrightarrow> (\<exists>w'. onExecuted w True chatCell = Inr w')) \<and>
     (\<forall>w'. onExecuted w True chatCell = Inr w' \<longrightarrow>
        ChapyterCell (cells w' chatCell) =
          Some \<lparr>linkedCellId = Some (model_id (cells w' assistanceCell)), cellType = Original\<rparr> \<and>
        ChapyterCell (cells w' assistanceCell) =
          Some \<lparr>linkedCellId = Some (model_id (cells w' chatCell)), cellType = Generated\<rparr>)"
proof -
  let ?h1 = "tag_original (cells w) chatCell"
  let ?safe = "isCellChapyterMagicCellSafeMode (cells w chatCell)"
  note run = onExecuted_found[OF assms]
  have ne: "assistanceCell \<noteq> chatCell"
    using found_is_not_trigger[OF assms(4) assms(1)] .
  have returns: "\<exists>w'. onExecuted w True chatCell = Inr w'" if ok: "cursor_ok nb"
  proof -
    obtain h' nb' where "link_assistanceCell ?h1 nb chatCell assistanceCell ?safe = Inr (h', nb')"
      using link_assistanceCell_total[OF ok] by blast
    then show ?thesis using run by simp
  qed
  have links: "ChapyterCell (cells w' chatCell) =
          Some \<lparr>linkedCellId = Some (model_id (cells w' assistanceCell)), cellType = Original\<rparr> \<and>
        ChapyterCell (cells w' assistanceCell) =
          Some \<lparr>linkedCellId = Some (model_id (cells w' chatCell)), cellType = Generated\<rparr>"
    if res: "onExecuted w True chatCell = Inr w'" for w'
  proof -
    obtain h' nb' where l: "link_assistanceCell ?h1 nb chatCell assistanceCell ?safe = Inr (h', nb')"
      and w': "w' = w\<lparr>cells := h', currentWidget := Some nb'\<rparr>"
      using res run by (auto split: sum.splits)
    show ?thesis
      using link_assistanceCell_store(1,2,3)[OF l ne] w' by simp
  qed
  show ?thesis using returns links by blast
qed

theorem executed_links_both_ways_witness:
  "isCellChapyterMagicCell (cells (pair_world ''%chat plot'' False) 0) True \<and>
   findCellByTemplateString (cells (pair_world ''%chat plot'' False)) pair_notebook
     (executionId_of (executionCount (cells (pair_world ''%chat plot'' False) 0))) = Some 1 \<and>
   metadata_after (onExecuted (pair_world ''%chat plot'' False) True 0) 0 =
     Some \<lparr>linkedCellId = Some ''g'', cellType = Original\<rparr> \<and>
   metadata_after (onExecuted (pair_world ''%chat plot'' False) True 0) 1 =
     Some \<lparr>linkedCellId = Some ''t'', cellType = Generated\<rparr>"
proof -
  let ?w = "pair_world ''%chat plot'' False"
  have h1: "isCellChapyterMagicCell (cells ?w 0) True"
    and h2: "isCellNotGenerated (cells ?w 0)"
    and h3: "currentWidget ?w = Some pair_notebook"
    and h4: "findCellByTemplateString (cells ?w) pair_notebook
       (executionId_of (executionCount (cells ?w 0))) = Some 1"
    by (simp_all add: example_defs handler_defs)
  have ok: "cursor_ok pair_notebook"
    by (simp add: cursor_ok_def pair_notebook_def)
  obtain w' where r: "onExecuted ?w True 0 = Inr w'"
    using executed_links_both_ways [OF h1 h2 h3 h4] ok by blast
  have ids: "model_id (cells w' 0) = ''t''" "model_id (cells w' 1) = ''g''"
    using r by (auto simp: example_defs handler_defs)
  show ?thesis
    using h1 h4 r ids executed_links_both_ways [OF h1 h2 h3 h4]
    by (simp add: metadata_after_def)
qed

text \<open>
  C5: in safe mode the handler is to leave the cursor on the generated cell without
  running or hiding it. With a trigger cell \<^verbatim>\<open>%chat -s query\<close> that hides its input
  under the cursor at position 0 and the generated cell at position 1, the handler
  links the two cells, makes no request to the host (no \<open>Run\<close> and no step) and
  leaves the widgets as they were, but the cursor stays at position 0, on the trigger
  cell: \<open>selectCellById\<close> skips the only step of its walk.
\<close>

theorem executed_safe_mode_hidden_trigger:
  "isCellChapyterMagicCell (cells (pair_world ''%chat -s query'' True) 0) True \<and>
   isCellChapyterMagicCellSafeMode (cells (pair_world ''%chat -s query'' True) 0) \<and>
   inputHidden (cells (pair_world ''%chat -s query'' True) 0) \<and>
   findCellByTemplateString (cells (pair_world ''%chat -s query'' True)) pair_notebook
     (executionId_of (executionCount (cells (pair_world ''%chat -s query'' True) 0))) = Some 1 \<and>
   metadata_after (onExecuted (pair_world ''%chat -s query'' True) True 0) 1 =
     Some \<lparr>linkedCellId = Some ''t'', cellType = Generated\<rparr> \<and>
   widgets_after (onExecuted (pair_world ''%chat -s query'' True) True 0) = Some [0, 1] \<and>
   issued_after (onExecuted (pair_world ''%chat -s query'' True) True 0) = Some [] \<and>
   cursor_after (onExecuted (pair_world ''%chat -s query'' True) True 0) = Some 0"
  by (simp add: example_defs handler_defs result_defs)

theorem executed_safe_mode_hidden_trigger_witness:
  "isCellChapyterMagicCell (cells (pair_world ''%chat -s query'' True) 0) True \<and>
   cursor_after (onExecuted (pair_world ''%chat -s query'' True) True 0) \<noteq> Some 1"
  using executed_safe_mode_hidden_trigger by simp


section \<open>Running a trigger cell again\<close>

lemma toggleClass_same:
  "model_id (toggleClass h c x r) = model_id (h r)"
  "model_type (toggleClass h c x r) = model_type (h r)"
  "source (toggleClass h c x r) = source (h r)"
  "inputHidden (toggleClass h c x r) = inputHidden (h r)"
  "executionCount (toggleClass h c x r) = executionCount (h r)"
  "ChapyterCell (toggleClass h c x r) = ChapyterCell (h r)"
  "deletable (toggleClass h c x r) = deletable (h r)"
  by (simp_all add: toggleClass_def addClass_def removeClass_def)

lemma positions_nonempty: "c \<in> set ws \<Longrightarrow> positions ws c \<noteq> []"
  using length_positions[of ws c] length_removeAll_less[of c ws] by auto

lemma cursor_ok_deleteCell:
  "toDelete_of h nb c \<noteq> [] \<Longrightarrow> cursor_ok (deleteCell h nb c)"
  using activeCellIndex_deleteCell[of h nb c]
  by (cases "widgets (deleteCell h nb c) = []") (auto simp: cursor_ok_def)

lemma deleteCell_deletable:
  assumes "c \<in> set (widgets nb)" "deletable (h c) \<noteq> Some False"
  shows "widgets (deleteCell h nb c) = removeAll c (widgets nb) \<and> cursor_ok (deleteCell h nb c)"
proof -
  have "toDelete_of h nb c \<noteq> []"
    using assms positions_nonempty by (simp add: toDelete_of_positions)
  then show ?thesis using assms(2) cursor_ok_deleteCell by (simp add: widgets_deleteCell)
qed

lemma onExecutionScheduled_linked:
  assumes "isCellChapyterMagicCell (cells w c) False" "isCellNotGenerated (cells w c)"
    "currentWidget w = Some nb" "ChapyterCell (cells w c) = Some m" "linkedCellId m = Some l"
    "l \<noteq> []" "findCellById (cells w) nb l = Some g"
  shows "onExecutionScheduled w c =
     (case selectCellById (toggleClass (cells w) c CHAPYTER_CHAT_CELL_EXECUTING)
             (deleteCell (toggleClass (cells w) c CHAPYTER_CHAT_CELL_EXECUTING) nb g)
             (model_id (cells w c)) of
        Inl e \<Rightarrow> Inl e
      | Inr nb' \<Rightarrow>
          Inr (w\<lparr>cells := toggleClass (cells w) c CHAPYTER_CHAT_CELL_EXECUTING,
                 currentWidget := Some nb'\<rparr>))"
proof -
  let ?h1 = "toggleClass (cells w) c CHAPYTER_CHAT_CELL_EXECUTING"
  have "findCellById ?h1 nb l = Some g"
    using assms(7) findCellById_from_cong[of ?h1 "cells w" "widgets nb" l]
    by (simp add: findCellById_def toggleClass_same)
  then show ?thesis using assms(1-6)
    by (simp add: onExecutionScheduled_def Let_def toggleClass_same)
qed

lemma scheduled_deletes:
  assumes "isCellChapyterMagicCell (cells w c) False" "isCellNotGenerated (cells w c)"
    "currentWidget w = Some nb" "ChapyterCell (cells w c) = Some m" "linkedCellId m = Some l"
    "l \<noteq> []" "findCellById (cells w) nb l = Some g" "deletable (cells w g) \<noteq> Some False"
  shows "\<exists>nb1. onExecutionScheduled w c =
       Inr (w\<lparr>cells := toggleClass (cells w) c CHAPYTER_CHAT_CELL_EXECUTING,
              currentWidget := Some nb1\<rparr>) \<and>
     widgets nb1 = removeAll g (widgets nb) \<and> cursor_ok nb1"
proof -
  let ?h1 = "toggleClass (cells w) c CHAPYTER_CHAT_CELL_EXECUTING"
  have g: "g \<in> set (widgets nb)"
    using findCellById_from_Some[of "cells w" "widgets nb" l g] assms(7)
    by (simp add: findCellById_def)
  have del: "widgets (deleteCell ?h1 nb g) = removeAll g (widgets nb)"
      "cursor_ok (deleteCell ?h1 nb g)"
    using deleteCell_deletable[of g nb ?h1] g assms(8) by (simp_all add: toggleClass_same)
  obtain nb1 where sel: "selectCellById ?h1 (deleteCell ?h1 nb g) (model_id (cells w c)) = Inr nb1"
    and ws: "widgets nb1 = widgets (deleteCell ?h1 nb g)" and ok: "cursor_ok nb1"
    using selectCellById_frame[OF del(2)] by blast
  have "onExecutionScheduled w c = Inr (w\<lparr>cells := ?h1, currentWidget := Some nb1\<rparr>)"
    using onExecutionScheduled_linked[OF assms(1-7)] sel by simp
  moreover have "widgets nb1 = removeAll g (widgets nb)" using ws del(1) by simp
  ultimately show ?thesis using ok by blast
qed







lemma onExecuted_no_reply:
  assumes "ChapyterCell (cells w c) \<noteq> None"
    and "\<forall>nb. currentWidget w = Some nb \<longrightarrow>
      findCellByTemplateString (cells w) nb (executionId_of (executionCount (cells w c))) = None"
  shows "onExecuted w True c = Inr w"
  using assms
  by (auto simp: onExecuted_def Let_def tag_original_def split: option.splits)




text \<open>
  C9: when the handler of \<^verbatim>\<open>executionScheduled\<close> has deleted the linked generated cell
  and the handler of \<^verbatim>\<open>executed\<close> then finds no cell for the new execution count, the
  second handler changes nothing: the trigger cell keeps its metadata with the old
  \<open>linkedCellId\<close>, and no cell of the notebook carries that id any more.
\<close>

theorem failed_rerun_leaves_stale_link:
  assumes "currentWidget w = Some nb"
    and "isCellChapyterMagicCell (cells w chatCell) False"
    and "isCellNotGenerated (cells w chatCell)"
    and "ChapyterCell (cells w chatCell) = Some m"
    and "linkedCellId m = Some l" and "l \<noteq> []"
    and "findCellById (cells w) nb l = Some g"
    and "deletable (cells w g) \<noteq> Some False"
    and "\<forall>r\<in>set (widgets nb). model_id (cells w r) = l \<longrightarrow> r = g"
  shows "\<exists>w1 nb1. onExecutionScheduled w chatCell = Inr w1 \<and> currentWidget w1 = Some nb1 \<and>
     g \<notin> set (widgets nb1) \<and>
     (\<forall>n. findCellByTemplateString (cells (kernel_count w1 chatCell n)) nb1 (executionId_of n) = None
        \<longrightarrow>
        onExecuted (kernel_count w1 chatCell n) True chatCell = Inr (kernel_count w1 chatCell n) \<and>
        ChapyterCell (cells (kernel_count w1 chatCell n) chatCell) = Some m \<and>
        findCellById (cells (kernel_count w1 chatCell n)) nb1 l = None)"
proof -
  let ?h1 = "toggleClass (cells w) chatCell CHAPYTER_CHAT_CELL_EXECUTING"
  obtain nb1 where r: "onExecutionScheduled w chatCell =
       Inr (w\<lparr>cells := ?h1, currentWidget := Some nb1\<rparr>)"
    and ws: "widgets nb1 = removeAll g (widgets nb)"
    using scheduled_deletes[OF assms(2,3,1,4,5,6,7,8)] by blast
  let ?w1 = "w\<lparr>cells := ?h1, currentWidget := Some nb1\<rparr>"
  have gone: "g \<notin> set (widgets nb1)" using ws by simp
  have after: "onExecuted (kernel_count ?w1 chatCell n) True chatCell =
        Inr (kernel_count ?w1 chatCell n) \<and>
      ChapyterCell (cells (kernel_count ?w1 chatCell n) chatCell) = Some m \<and>
      findCellById (cells (kernel_count ?w1 chatCell n)) nb1 l = None"
    if miss: "findCellByTemplateString (cells (kernel_count ?w1 chatCell n)) nb1
        (executionId_of n) = None" for n
  proof -
    let ?w2 = "kernel_count ?w1 chatCell n"
    have md: "ChapyterCell (cells ?w2 chatCell) = Some m"
      using assms(4) by (simp add: kernel_count_def toggleClass_same)
    have cnt: "executionCount (cells ?w2 chatCell) = n" "currentWidget ?w2 = Some nb1"
      by (simp_all add: kernel_count_def)
    have same: "onExecuted ?w2 True chatCell = Inr ?w2"
      using onExecuted_no_reply[of ?w2 chatCell] md cnt miss by simp
    have ids: "\<forall>r. model_id (cells ?w2 r) = model_id (cells w r)"
      by (simp add: kernel_count_def toggleClass_same)
    have "l \<notin> model_id ` cells w ` set (widgets nb1)"
      using assms(9) ws by auto
    then have "findCellById_from (cells w) (widgets nb1) l = None"
      by (simp add: findCellById_from_None)
    then have "findCellById (cells ?w2) nb1 l = None"
      using findCellById_from_cong[OF ids, of "widgets nb1" l] by (simp add: findCellById_def)
    then show ?thesis using same md by simp
  qed
  show ?thesis using r gone after by auto
qed

theorem failed_rerun_leaves_stale_link_witness:
  "findCellById (cells (linked_world None)) pair_notebook ''g'' = Some 1 \<and>
   deletable (cells (linked_world None) 1) \<noteq> Some False \<and>
   onExecutionScheduled (linked_world None) 0 = Inr deleted_world \<and>
   onExecuted (kernel_count deleted_world 0 (Some 2)) True 0 =
     Inr (kernel_count deleted_world 0 (Some 2)) \<and>
   metadata_after (onExecuted (kernel_count deleted_world 0 (Some 2)) True 0) 0 =
     Some \<lparr>linkedCellId = Some ''g'', cellType = Original\<rparr> \<and>
   widgets_after (onExecuted (kernel_count deleted_world 0 (Some 2)) True 0) = Some [0]"
proof -
  let ?w = "linked_world None"
  let ?m = "\<lparr>linkedCellId = Some ''g'', cellType = Original\<rparr>"
  let ?nb1 = "pair_notebook\<lparr>widgets := [0], deletedCells := [''g'']\<rparr>"
  have h1: "currentWidget ?w = Some pair_notebook"
    and h2: "isCellChapyterMagicCell (cells ?w 0) False"
    and h3: "isCellNotGenerated (cells ?w 0)"
    and h4: "ChapyterCell (cells ?w 0) = Some ?m"
    and h5: "linkedCellId ?m = Some ''g''" and h6: "''g'' \<noteq> []"
    and h7: "findCellById (cells ?w) pair_notebook ''g'' = Some 1"
    and h8: "deletable (cells ?w 1) \<noteq> Some False"
    and h9: "\<forall>r\<in>set (widgets pair_notebook). model_id (cells ?w r) = ''g'' \<longrightarrow> r = 1"
    by (simp_all add: example_defs handler_defs)
  have e: "onExecutionScheduled ?w 0 = Inr deleted_world"
    by (simp add: example_defs handler_defs upt_rec)
  have cw: "currentWidget deleted_world = Some ?nb1"
    by (simp add: deleted_world_def)
  obtain w1 nb1 where r: "onExecutionScheduled ?w 0 = Inr w1" "currentWidget w1 = Some nb1"
    and stale: "\<forall>n. findCellByTemplateString (cells (kernel_count w1 0 n)) nb1 (executionId_of n) = None
        \<longrightarrow>
        onExecuted (kernel_count w1 0 n) True 0 = Inr (kernel_count w1 0 n) \<and>
        ChapyterCell (cells (kernel_count w1 0 n) 0) = Some ?m \<and>
        findCellById (cells (kernel_count w1 0 n)) nb1 ''g'' = None"
    using failed_rerun_leaves_stale_link [OF h1 h2 h3 h4 h5 h6 h7 h8 h9] by blast
  have w1: "w1 = deleted_world" "nb1 = ?nb1"
    using r e cw by simp_all
  have miss: "findCellByTemplateString (cells (kernel_count deleted_world 0 (Some 2))) ?nb1
      (executionId_of (Some 2)) = None"
    by (simp add: example_defs handler_defs)
  have "onExecuted (kernel_count deleted_world 0 (Some 2)) True 0 =
        Inr (kernel_count deleted_world 0 (Some 2)) \<and>
      ChapyterCell (cells (kernel_count deleted_world 0 (Some 2)) 0) = Some ?m"
    using stale miss unfolding w1 by blast
  then show ?thesis
    using h7 h8 e cw
    by (simp add: metadata_after_def widgets_after_def kernel_count_def)
qed


end
